theory Spec2Isabelle
  imports Main "HOL-Library.DAList" "HOL-Library.Multiset" "HOL-Library.Word"
begin

section \<open>Values of the Go program\<close>

text \<open>
  A Go \<^verbatim>\<open>error\<close> is an interface value: \<^verbatim>\<open>nil\<close>, or a value whose only
  method used by this package is \<^verbatim>\<open>Error() string\<close>. A non-nil error is modelled
  by its message, \<^verbatim>\<open>nil\<close> by \<open>None\<close>.
\<close>

datatype error_value = ErrorValue (err_Error: string)

type_synonym error = "error_value option"

text \<open>
  Go's \<^verbatim>\<open>int\<close> is taken at 64 bits. A \<^verbatim>\<open>float64\<close> is carried as its IEEE-754 bit
  pattern: the package stores and forwards floats and never computes with them.
\<close>

type_synonym go_int = "64 word"

datatype float64 = Float64 (float_bits: "64 word")

section \<open>Go maps\<close>

text \<open>
  A Go map with string keys is \<^verbatim>\<open>nil\<close> (\<open>None\<close>) or a finite table with one value per
  key (\<open>Some\<close> of an association list with distinct keys). Reading and ranging over a
  nil map behave as on an empty map; the source never writes to a nil map (each setter
  allocates first).
\<close>

type_synonym 'v go_map = "(string, 'v) alist option"

definition make_map :: "'v go_map" where
  "make_map = Some DAList.empty"

definition map_store :: "string \<Rightarrow> 'v \<Rightarrow> 'v go_map \<Rightarrow> 'v go_map" where
  "map_store k v m = map_option (DAList.update k v) m"

definition map_entries :: "'v go_map \<Rightarrow> (string \<times> 'v) list" where
  "map_entries m = (case m of None \<Rightarrow> [] | Some al \<Rightarrow> DAList.impl_of al)"

definition map_index :: "'v go_map \<Rightarrow> string \<Rightarrow> 'v option" where
  "map_index m k = map_of (map_entries m) k"

text \<open>
  The order in which \<^verbatim>\<open>range\<close> visits a map is chosen by the Go runtime and differs
  from one loop to the next. The choice is an explicit argument: a list of numbers,
  each picking the next entry among those not visited yet. Every such list gives a
  visiting order, and every order is given by some list (\<open>visit_any_order\<close> below).
\<close>

fun visit :: "nat list \<Rightarrow> 'a list \<Rightarrow> 'a list" where
  "visit [] xs = xs"
| "visit (n # ns) xs =
     (if xs = [] then []
      else (let i = n mod length xs
            in xs ! i # visit ns (take i xs @ drop (Suc i) xs)))"

definition range_map :: "nat list \<Rightarrow> 'v go_map \<Rightarrow> (string \<times> 'v) list" where
  "range_map order m = visit order (map_entries m)"

section \<open>The attribute accumulator\<close>

record spanAttributes =
  Str :: "string go_map"
  Bool :: "bool go_map"
  Slice :: "string list go_map"
  Int' :: "go_int go_map"
  Float :: "float64 go_map"

text \<open>\<^verbatim>\<open>NewAttrs\<close> returns the zero value: every map is nil.\<close>

definition NewAttrs :: spanAttributes where
  "NewAttrs = \<lparr>Str = None, Bool = None, Slice = None, Int' = None, Float = None\<rparr>"

definition StrKV :: "string \<Rightarrow> string \<Rightarrow> spanAttributes \<Rightarrow> spanAttributes" where
  "StrKV k v a =
     (let a1 = (if Str a = None then a\<lparr>Str := make_map\<rparr> else a)
      in a1\<lparr>Str := map_store k v (Str a1)\<rparr>)"

definition BoolKV :: "string \<Rightarrow> bool \<Rightarrow> spanAttributes \<Rightarrow> spanAttributes" where
  "BoolKV k v a =
     (let a1 = (if Bool a = None then a\<lparr>Bool := make_map\<rparr> else a)
      in a1\<lparr>Bool := map_store k v (Bool a1)\<rparr>)"

definition IntKV :: "string \<Rightarrow> go_int \<Rightarrow> spanAttributes \<Rightarrow> spanAttributes" where
  "IntKV k v a =
     (let a1 = (if Int' a = None then a\<lparr>Int' := make_map\<rparr> else a)
      in a1\<lparr>Int' := map_store k v (Int' a1)\<rparr>)"

definition FloatKV :: "string \<Rightarrow> float64 \<Rightarrow> spanAttributes \<Rightarrow> spanAttributes" where
  "FloatKV k v a =
     (let a1 = (if Float a = None then a\<lparr>Float := make_map\<rparr> else a)
      in a1\<lparr>Float := map_store k v (Float a1)\<rparr>)"

definition SliceKV :: "string \<Rightarrow> string list \<Rightarrow> spanAttributes \<Rightarrow> spanAttributes" where
  "SliceKV k v a =
     (let a1 = (if Slice a = None then a\<lparr>Slice := make_map\<rparr> else a)
      in a1\<lparr>Slice := map_store k v (Slice a1)\<rparr>)"

definition ErrorKV :: "string \<Rightarrow> error \<Rightarrow> spanAttributes \<Rightarrow> spanAttributes" where
  "ErrorKV k v a =
     (let a1 = (if Str a = None then a\<lparr>Str := make_map\<rparr> else a)
      in (case v of
            None \<Rightarrow> a1\<lparr>Str := map_store k ''<nil>'' (Str a1)\<rparr>
          | Some e \<Rightarrow> a1\<lparr>Str := map_store k (err_Error e) (Str a1)\<rparr>))"

section \<open>Attribute key/value pairs\<close>

text \<open>
  The SDK's \<^verbatim>\<open>attribute.KeyValue\<close>: a key and a value tagged with its kind.
  \<^verbatim>\<open>attribute.Int\<close> widens the Go \<^verbatim>\<open>int\<close> to an INT64 value.
\<close>

datatype attr_value =
  STRING string | BOOL bool | INT64 go_int | FLOAT64 float64 | STRINGSLICE "string list"

datatype attr_type = T_STRING | T_BOOL | T_INT64 | T_FLOAT64 | T_STRINGSLICE

fun value_type :: "attr_value \<Rightarrow> attr_type" where
  "value_type (STRING _) = T_STRING"
| "value_type (BOOL _) = T_BOOL"
| "value_type (INT64 _) = T_INT64"
| "value_type (FLOAT64 _) = T_FLOAT64"
| "value_type (STRINGSLICE _) = T_STRINGSLICE"

type_synonym KeyValue = "string \<times> attr_value"

definition attribute_String :: "string \<Rightarrow> string \<Rightarrow> KeyValue" where
  "attribute_String k v = (k, STRING v)"

definition attribute_Bool :: "string \<Rightarrow> bool \<Rightarrow> KeyValue" where
  "attribute_Bool k v = (k, BOOL v)"

definition attribute_Int :: "string \<Rightarrow> go_int \<Rightarrow> KeyValue" where
  "attribute_Int k v = (k, INT64 v)"

definition attribute_Float64 :: "string \<Rightarrow> float64 \<Rightarrow> KeyValue" where
  "attribute_Float64 k v = (k, FLOAT64 v)"

definition attribute_StringSlice :: "string \<Rightarrow> string list \<Rightarrow> KeyValue" where
  "attribute_StringSlice k v = (k, STRINGSLICE v)"

text \<open>
  \<^verbatim>\<open>Parse\<close> runs five \<^verbatim>\<open>range\<close> loops, each appending to \<^verbatim>\<open>out\<close>; the loops come
  in the order Str, Bool, Int, Float, Slice. Each loop has its own visiting order.
\<close>

record range_orders =
  str_order :: "nat list"
  bool_order :: "nat list"
  int_order :: "nat list"
  float_order :: "nat list"
  slice_order :: "nat list"

definition Parse :: "range_orders \<Rightarrow> spanAttributes \<Rightarrow> KeyValue list" where
  "Parse ro a =
     (let out = [];
          out = fold (\<lambda>(k, v) out. out @ [attribute_String k v])
                  (range_map (str_order ro) (Str a)) out;
          out = fold (\<lambda>(k, v) out. out @ [attribute_Bool k v])
                  (range_map (bool_order ro) (Bool a)) out;
          out = fold (\<lambda>(k, v) out. out @ [attribute_Int k v])
                  (range_map (int_order ro) (Int' a)) out;
          out = fold (\<lambda>(k, v) out. out @ [attribute_Float64 k v])
                  (range_map (float_order ro) (Float a)) out;
          out = fold (\<lambda>(k, v) out. out @ [attribute_StringSlice k v])
                  (range_map (slice_order ro) (Slice a)) out
      in out)"

text \<open>The visiting orders in which every loop takes the entries as they are stored.\<close>

definition stored_order :: range_orders where
  "stored_order =
     \<lparr>str_order = [], bool_order = [], int_order = [], float_order = [], slice_order = []\<rparr>"

text \<open>
  A call of one of the six typed setters, as data, so that statements can range over
  setters: the call, the setter it names, and the entry value that the setter's
  argument stands for.
\<close>

datatype setter_call =
  CallStrKV string | CallBoolKV bool | CallIntKV go_int | CallFloatKV float64
  | CallSliceKV "string list" | CallErrorKV error

datatype setter = S_StrKV | S_BoolKV | S_IntKV | S_FloatKV | S_SliceKV | S_ErrorKV

fun setter_of :: "setter_call \<Rightarrow> setter" where
  "setter_of (CallStrKV _) = S_StrKV"
| "setter_of (CallBoolKV _) = S_BoolKV"
| "setter_of (CallIntKV _) = S_IntKV"
| "setter_of (CallFloatKV _) = S_FloatKV"
| "setter_of (CallSliceKV _) = S_SliceKV"
| "setter_of (CallErrorKV _) = S_ErrorKV"

fun call_setter :: "string \<Rightarrow> setter_call \<Rightarrow> spanAttributes \<Rightarrow> spanAttributes" where
  "call_setter k (CallStrKV v) a = StrKV k v a"
| "call_setter k (CallBoolKV v) a = BoolKV k v a"
| "call_setter k (CallIntKV v) a = IntKV k v a"
| "call_setter k (CallFloatKV v) a = FloatKV k v a"
| "call_setter k (CallSliceKV v) a = SliceKV k v a"
| "call_setter k (CallErrorKV v) a = ErrorKV k v a"

fun value_set :: "setter_call \<Rightarrow> attr_value" where
  "value_set (CallStrKV v) = STRING v"
| "value_set (CallBoolKV v) = BOOL v"
| "value_set (CallIntKV v) = INT64 v"
| "value_set (CallFloatKV v) = FLOAT64 v"
| "value_set (CallSliceKV v) = STRINGSLICE v"
| "value_set (CallErrorKV None) = STRING ''<nil>''"
| "value_set (CallErrorKV (Some e)) = STRING (err_Error e)"

definition entries_for :: "string \<Rightarrow> attr_type \<Rightarrow> KeyValue list \<Rightarrow> KeyValue list" where
  "entries_for k t out = filter (\<lambda>(k', v). k' = k \<and> value_type v = t) out"

section \<open>The SDK span, as the wrapper uses it\<close>

text \<open>
  The tracing SDK is an external collaborator. Its span is modelled by what it was
  started with and by the sequence of calls the wrapper has made on it, in order.
  \<^verbatim>\<open>RecordError\<close> carries the value of the \<^verbatim>\<open>trace.WithStackTrace\<close> option, \<open>False\<close>
  when the call passes no such option.
\<close>

datatype SpanKind =
  SpanKindInternal | SpanKindServer | SpanKindClient | SpanKindProducer | SpanKindConsumer

datatype Code = codes_Unset | codes_Error | codes_Ok

datatype span_call =
  SetAttributes "KeyValue list"
  | SetStatus Code string
  | RecordError error_value bool
  | SpanEnd

record sdk_span =
  tracer_name :: string
  span_name :: string
  span_kind :: SpanKind
  calls :: "span_call list"

datatype "context" = Background | ContextWithSpan "context" string

definition tracer_Start ::
  "string \<Rightarrow> context \<Rightarrow> string \<Rightarrow> SpanKind \<Rightarrow> context \<times> sdk_span" where
  "tracer_Start tracerName ctx spanName kind =
     (ContextWithSpan ctx spanName,
      \<lparr>tracer_name = tracerName, span_name = spanName, span_kind = kind, calls = []\<rparr>)"

definition issue :: "span_call \<Rightarrow> sdk_span \<Rightarrow> sdk_span" where
  "issue c sp = sp\<lparr>calls := calls sp @ [c]\<rparr>"




section \<open>The span wrapper\<close>

record Span =
  Ctx :: "context"
  Span :: sdk_span
  Attrs :: spanAttributes

record startOptions =
  Kind :: string
  TracerName :: string

definition kindMap :: "string \<rightharpoonup> SpanKind" where
  "kindMap = map_of
     [(''internal'', SpanKindInternal),
      (''server'', SpanKindServer),
      (''client'', SpanKindClient),
      (''producer'', SpanKindProducer),
      (''consumer'', SpanKindConsumer)]"

text \<open>The variadic \<^verbatim>\<open>tracerArgs\<close> is a list; only its first element is read.\<close>

definition New :: "context \<Rightarrow> string \<Rightarrow> startOptions list \<Rightarrow> Span" where
  "New ctx spanName tracerArgs =
     (let opt = \<lparr>Kind = [], TracerName = []\<rparr>;
          kind = SpanKindInternal;
          (opt, kind) =
            (case tracerArgs of
               [] \<Rightarrow> (opt, kind)
             | arg0 # _ \<Rightarrow>
                 (case kindMap (Kind arg0) of
                    Some spanKind \<Rightarrow> (arg0, spanKind)
                  | None \<Rightarrow> (arg0, kind)));
          (ctx', span) = tracer_Start (TracerName opt) ctx spanName kind
      in \<lparr>Ctx = ctx', Span = span, Attrs = NewAttrs\<rparr>)"

definition Extract :: "range_orders \<Rightarrow> Span \<Rightarrow> Span" where
  "Extract ro s = s\<lparr>Span := issue (SetAttributes (Parse ro (Attrs s))) (Span s)\<rparr>"

definition OK :: "string list \<Rightarrow> Span \<Rightarrow> Span" where
  "OK msg s =
     (let description = (case msg of [] \<Rightarrow> [] | m0 # _ \<Rightarrow> m0)
      in s\<lparr>Span := issue (SetStatus codes_Ok description) (Span s)\<rparr>)"

definition SError :: "string \<Rightarrow> Span \<Rightarrow> Span" where
  "SError msg s =
     (if msg = [] then s
      else s\<lparr>Span := issue (SetStatus codes_Error msg) (Span s)\<rparr>)"

text \<open>The variadic \<^verbatim>\<open>recordError\<close> is a list; only its first element is read.\<close>

definition Error :: "error \<Rightarrow> bool list \<Rightarrow> Span \<Rightarrow> Span" where
  "Error err recordError s =
     (case err of
        None \<Rightarrow> s
      | Some e \<Rightarrow>
          (let s1 = (if length recordError > 0 \<and> hd recordError
                     then s\<lparr>Span := issue (RecordError e False) (Span s)\<rparr>
                     else s)
           in s1\<lparr>Span := issue (SetStatus codes_Error (err_Error e)) (Span s1)\<rparr>))"

text \<open>
  The goroutine's panic state is \<open>Some r\<close> while a panic with payload \<open>r\<close> unwinds and
  \<open>None\<close> otherwise. \<^verbatim>\<open>recover()\<close>, called by the deferred function itself, returns
  the payload and stops the panic. \<^verbatim>\<open>fmt.Errorf\<close> renders the payload with \<^verbatim>\<open>%v\<close>;
  the rendering of a payload is the parameter \<open>fmt_v\<close>.
\<close>

definition recover :: "'p option \<Rightarrow> 'p option \<times> 'p option" where
  "recover panicking = (panicking, None)"

definition Errorf_recovered :: "('p \<Rightarrow> string) \<Rightarrow> 'p \<Rightarrow> error_value" where
  "Errorf_recovered fmt_v r = ErrorValue (''recovered from panic: '' @ fmt_v r)"

definition End ::
  "('p \<Rightarrow> string) \<Rightarrow> range_orders \<Rightarrow> Span \<Rightarrow> 'p option \<Rightarrow> Span \<times> 'p option" where
  "End fmt_v ro s panicking =
     (let (r, panicking') = recover panicking
      in (case r of
            Some p \<Rightarrow>
              (let err = Errorf_recovered fmt_v p;
                   s1 = s\<lparr>Span := issue (RecordError err True) (Span s)\<rparr>;
                   s2 = Error (Some err) [] s1;
                   s3 = s2\<lparr>Span := issue SpanEnd (Span s2)\<rparr>
               in (s3, panicking'))
          | None \<Rightarrow>
              (let s1 = Extract ro s;
                   s2 = s1\<lparr>Span := issue SpanEnd (Span s1)\<rparr>
               in (s2, panicking'))))"

section \<open>The hook registry\<close>

text \<open>
  The package-level variables \<^verbatim>\<open>cfg\<close> and \<^verbatim>\<open>once\<close>. A Go function value is \<^verbatim>\<open>nil\<close>
  (\<open>None\<close>) or a function; \<open>once_done\<close> is the state of the \<^verbatim>\<open>sync.Once\<close>.
\<close>

record ('ef, 'pf) config =
  errorFunc :: "'ef option"
  panicFunc :: "'pf option"

record ('ef, 'pf) registry =
  cfg :: "('ef, 'pf) config"
  once_done :: bool

definition initial_registry :: "('ef, 'pf) registry" where
  "initial_registry = \<lparr>cfg = \<lparr>errorFunc = None, panicFunc = None\<rparr>, once_done = False\<rparr>"

definition once_Do ::
  "(('ef, 'pf) registry \<Rightarrow> ('ef, 'pf) registry) \<Rightarrow> ('ef, 'pf) registry \<Rightarrow> ('ef, 'pf) registry" where
  "once_Do f st = (if once_done st then st else (f st)\<lparr>once_done := True\<rparr>)"

definition SetErrorFunc :: "'ef option \<Rightarrow> ('ef, 'pf) registry \<Rightarrow> ('ef, 'pf) registry" where
  "SetErrorFunc fn st = once_Do (\<lambda>st. st\<lparr>cfg := (cfg st)\<lparr>errorFunc := fn\<rparr>\<rparr>) st"

definition SetPanicFunc :: "'pf option \<Rightarrow> ('ef, 'pf) registry \<Rightarrow> ('ef, 'pf) registry" where
  "SetPanicFunc fn st = once_Do (\<lambda>st. st\<lparr>cfg := (cfg st)\<lparr>panicFunc := fn\<rparr>\<rparr>) st"

datatype ('ef, 'pf) hook_call = CallSetErrorFunc "'ef option" | CallSetPanicFunc "'pf option"

fun hook_step :: "('ef, 'pf) hook_call \<Rightarrow> ('ef, 'pf) registry \<Rightarrow> ('ef, 'pf) registry" where
  "hook_step (CallSetErrorFunc fn) st = SetErrorFunc fn st"
| "hook_step (CallSetPanicFunc fn) st = SetPanicFunc fn st"

definition run_calls ::
  "('ef, 'pf) hook_call list \<Rightarrow> ('ef, 'pf) registry \<Rightarrow> ('ef, 'pf) registry" where
  "run_calls cs st = fold hook_step cs st"

section \<open>Ranging over a map\<close>

lemma mset_remove_nth:
  "i < length xs \<Longrightarrow> add_mset (xs ! i) (mset (take i xs @ drop (Suc i) xs)) = mset xs"
proof -
  assume i: "i < length xs"
  have "xs = take i xs @ xs ! i # drop (Suc i) xs"
    using i by (simp add: id_take_nth_drop)
  then have "mset xs = mset (take i xs @ xs ! i # drop (Suc i) xs)"
    by simp
  then show ?thesis by simp
qed

lemma mset_visit: "mset (visit ns xs) = mset xs"
proof (induction ns xs rule: visit.induct)
  case (1 xs)
  show ?case by simp
next
  case (2 n ns xs)
  show ?case
  proof (cases "xs = []")
    case True
    then show ?thesis by simp
  next
    case False
    then have i: "n mod length xs < length xs" by simp
    show ?thesis
      using False 2 [OF False refl] mset_remove_nth [OF i] by (simp add: Let_def)
  qed
qed

text \<open>Every order of the entries is the visiting order of some choice list.\<close>

lemma visit_any_order: "mset ys = mset xs \<Longrightarrow> \<exists>ns. visit ns xs = ys"
proof (induction ys arbitrary: xs)
  case Nil
  then have "xs = []" by simp
  then have "visit [] xs = []" by simp
  then show ?case by blast
next
  case (Cons y ys)
  have "y \<in> set xs"
    using Cons.prems by (metis list.set_intros(1) mset_eq_setD)
  then obtain i where i: "i < length xs" and y: "xs ! i = y"
    by (auto simp: in_set_conv_nth)
  let ?rest = "take i xs @ drop (Suc i) xs"
  have "add_mset y (mset ?rest) = add_mset y (mset ys)"
    using mset_remove_nth [OF i] y Cons.prems by simp
  then have "mset ys = mset ?rest" by simp
  then obtain ns where ns: "visit ns ?rest = ys"
    using Cons.IH by blast
  have ne: "xs \<noteq> []" using i by auto
  have "visit (i # ns) xs = y # ys"
    using ne i y ns by (simp add: Let_def)
  then show ?case by blast
qed

lemma set_range_map: "set (range_map order m) = set (map_entries m)"
  unfolding range_map_def using mset_visit [of order "map_entries m"] by (rule mset_eq_setD)

lemma distinct_map_entries: "distinct (map fst (map_entries m))"
  by (cases m) (simp_all add: map_entries_def)

lemma distinct_range_map: "distinct (map fst (range_map order m))"
proof -
  have "mset (map fst (range_map order m)) = mset (map fst (map_entries m))"
    by (simp add: range_map_def mset_visit)
  then show ?thesis
    using distinct_map_entries [of m] by (metis mset_eq_imp_distinct_iff)
qed

lemma map_of_range_map: "map_of (range_map order m) = map_index m"
proof -
  have "map_of (range_map order m) = map_of (map_entries m)"
    using distinct_range_map distinct_map_entries set_range_map
    by (rule map_of_inject_set [THEN iffD2])
  then show ?thesis by (auto simp: map_index_def)
qed

section \<open>What Parse returns\<close>

lemma fold_append_map:
  "fold (\<lambda>(k, v) out. out @ [f k v]) xs out = out @ map (\<lambda>(k, v). f k v) xs"
  by (induction xs arbitrary: out) (auto split: prod.splits)

lemma Parse_segments:
  "Parse ro a =
     map (\<lambda>(k, v). (k, STRING v)) (range_map (str_order ro) (Str a))
     @ map (\<lambda>(k, v). (k, BOOL v)) (range_map (bool_order ro) (Bool a))
     @ map (\<lambda>(k, v). (k, INT64 v)) (range_map (int_order ro) (Int' a))
     @ map (\<lambda>(k, v). (k, FLOAT64 v)) (range_map (float_order ro) (Float a))
     @ map (\<lambda>(k, v). (k, STRINGSLICE v)) (range_map (slice_order ro) (Slice a))"
  by (simp add: Parse_def fold_append_map attribute_String_def attribute_Bool_def
      attribute_Int_def attribute_Float64_def attribute_StringSlice_def)

lemma filter_key_distinct:
  "distinct (map fst xs) \<Longrightarrow>
   filter (\<lambda>(k', v). k' = k) xs = (case map_of xs k of None \<Rightarrow> [] | Some v \<Rightarrow> [(k, v)])"
proof (induction xs)
  case Nil
  show ?case by simp
next
  case (Cons x xs)
  obtain k0 v0 where x: "x = (k0, v0)" by (cases x)
  have notin: "k0 \<notin> fst ` set xs" and d: "distinct (map fst xs)"
    using Cons.prems x by auto
  show ?case
  proof (cases "k0 = k")
    case True
    have "map_of xs k = None"
      using notin True by (simp add: map_of_eq_None_iff)
    then have "filter (\<lambda>(k', v). k' = k) xs = []"
      using Cons.IH [OF d] by simp
    then show ?thesis using x True by simp
  next
    case False
    then show ?thesis using x Cons.IH [OF d] by simp
  qed
qed

lemma entries_for_segment:
  assumes ty: "\<And>v. value_type (C v) = t'"
  shows "entries_for k t (map (\<lambda>(k, v). (k, C v)) (range_map order m)) =
         (if t = t' then (case map_index m k of None \<Rightarrow> [] | Some v \<Rightarrow> [(k, C v)]) else [])"
proof -
  have "entries_for k t (map (\<lambda>(k, v). (k, C v)) (range_map order m)) =
        (if t = t' then map (\<lambda>(k, v). (k, C v)) (filter (\<lambda>(k', v). k' = k) (range_map order m))
         else [])"
    by (auto simp: entries_for_def filter_map o_def ty split_def intro: filter_cong)
  then show ?thesis
    by (simp add: filter_key_distinct [OF distinct_range_map] map_of_range_map
        split: option.splits)
qed

lemma entries_for_append: "entries_for k t (xs @ ys) = entries_for k t xs @ entries_for k t ys"
  by (simp add: entries_for_def)

lemma entries_for_Parse:
  "entries_for k t (Parse ro a) =
     (case t of
        T_STRING \<Rightarrow> (case map_index (Str a) k of None \<Rightarrow> [] | Some v \<Rightarrow> [(k, STRING v)])
      | T_BOOL \<Rightarrow> (case map_index (Bool a) k of None \<Rightarrow> [] | Some v \<Rightarrow> [(k, BOOL v)])
      | T_INT64 \<Rightarrow> (case map_index (Int' a) k of None \<Rightarrow> [] | Some v \<Rightarrow> [(k, INT64 v)])
      | T_FLOAT64 \<Rightarrow> (case map_index (Float a) k of None \<Rightarrow> [] | Some v \<Rightarrow> [(k, FLOAT64 v)])
      | T_STRINGSLICE \<Rightarrow>
          (case map_index (Slice a) k of None \<Rightarrow> [] | Some v \<Rightarrow> [(k, STRINGSLICE v)]))"
  by (cases t)
    (simp_all add: Parse_segments entries_for_append
      entries_for_segment [where C = STRING and t' = T_STRING]
      entries_for_segment [where C = BOOL and t' = T_BOOL]
      entries_for_segment [where C = INT64 and t' = T_INT64]
      entries_for_segment [where C = FLOAT64 and t' = T_FLOAT64]
      entries_for_segment [where C = STRINGSLICE and t' = T_STRINGSLICE])

section \<open>The typed setters\<close>

lemma map_index_store_fresh:
  "map_index (map_store k v make_map) = (map_index None)(k \<mapsto> v)"
  by (rule ext) (simp add: map_index_def map_entries_def map_store_def make_map_def
      update.rep_eq empty.rep_eq)

lemma map_index_store_Some:
  "map_index (map_store k v (Some al)) = (map_index (Some al))(k \<mapsto> v)"
  by (rule ext) (simp add: map_index_def map_entries_def map_store_def update.rep_eq
      update_conv')

lemma Str_StrKV: "map_index (Str (StrKV k v a)) = (map_index (Str a))(k \<mapsto> v)"
  by (cases "Str a") (simp_all add: StrKV_def Let_def map_index_store_fresh map_index_store_Some)

lemma Bool_BoolKV: "map_index (Bool (BoolKV k v a)) = (map_index (Bool a))(k \<mapsto> v)"
  by (cases "Bool a") (simp_all add: BoolKV_def Let_def map_index_store_fresh map_index_store_Some)

lemma Int_IntKV: "map_index (Int' (IntKV k v a)) = (map_index (Int' a))(k \<mapsto> v)"
  by (cases "Int' a") (simp_all add: IntKV_def Let_def map_index_store_fresh map_index_store_Some)

lemma Float_FloatKV: "map_index (Float (FloatKV k v a)) = (map_index (Float a))(k \<mapsto> v)"
  by (cases "Float a") (simp_all add: FloatKV_def Let_def map_index_store_fresh map_index_store_Some)

lemma Slice_SliceKV: "map_index (Slice (SliceKV k v a)) = (map_index (Slice a))(k \<mapsto> v)"
  by (cases "Slice a") (simp_all add: SliceKV_def Let_def map_index_store_fresh map_index_store_Some)

lemma Str_ErrorKV:
  "map_index (Str (ErrorKV k v a)) =
     (map_index (Str a))(k \<mapsto> (case v of None \<Rightarrow> ''<nil>'' | Some e \<Rightarrow> err_Error e))"
  by (cases "Str a"; cases v)
    (simp_all add: ErrorKV_def Let_def map_index_store_fresh map_index_store_Some)

lemma StrKV_others:
  "Bool (StrKV k v a) = Bool a" "Int' (StrKV k v a) = Int' a"
  "Float (StrKV k v a) = Float a" "Slice (StrKV k v a) = Slice a"
  by (simp_all add: StrKV_def Let_def)

lemma BoolKV_others:
  "Str (BoolKV k v a) = Str a" "Int' (BoolKV k v a) = Int' a"
  "Float (BoolKV k v a) = Float a" "Slice (BoolKV k v a) = Slice a"
  by (simp_all add: BoolKV_def Let_def)

lemma IntKV_others:
  "Str (IntKV k v a) = Str a" "Bool (IntKV k v a) = Bool a"
  "Float (IntKV k v a) = Float a" "Slice (IntKV k v a) = Slice a"
  by (simp_all add: IntKV_def Let_def)

lemma FloatKV_others:
  "Str (FloatKV k v a) = Str a" "Bool (FloatKV k v a) = Bool a"
  "Int' (FloatKV k v a) = Int' a" "Slice (FloatKV k v a) = Slice a"
  by (simp_all add: FloatKV_def Let_def)

lemma SliceKV_others:
  "Str (SliceKV k v a) = Str a" "Bool (SliceKV k v a) = Bool a"
  "Int' (SliceKV k v a) = Int' a" "Float (SliceKV k v a) = Float a"
  by (simp_all add: SliceKV_def Let_def)

lemma ErrorKV_others:
  "Bool (ErrorKV k v a) = Bool a" "Int' (ErrorKV k v a) = Int' a"
  "Float (ErrorKV k v a) = Float a" "Slice (ErrorKV k v a) = Slice a"
  by (simp_all add: ErrorKV_def Let_def split: option.splits)

lemmas setter_others =
  StrKV_others BoolKV_others IntKV_others FloatKV_others SliceKV_others ErrorKV_others

lemmas setter_own =
  Str_StrKV Bool_BoolKV Int_IntKV Float_FloatKV Slice_SliceKV Str_ErrorKV

text \<open>The entry of the kind a setter call writes, after the call.\<close>

lemma entries_after_call:
  "entries_for k (value_type (value_set c)) (Parse ro (call_setter k c a)) = [(k, value_set c)]"
proof (cases c)
  case (CallErrorKV v)
  then show ?thesis
    by (cases v) (simp_all add: entries_for_Parse setter_own)
qed (simp_all add: entries_for_Parse setter_own)

text \<open>A setter call leaves the entries of every other kind as they were.\<close>

lemma entries_other_kind:
  assumes "t \<noteq> value_type (value_set c)"
  shows "entries_for k' t (Parse ro (call_setter k c a)) = entries_for k' t (Parse ro a)"
proof (cases c)
  case (CallErrorKV v)
  then show ?thesis
    using assms by (cases v; cases t) (simp_all add: entries_for_Parse setter_others)
qed (use assms in \<open>cases t; simp add: entries_for_Parse setter_others\<close>)+

section \<open>The SDK span: calls and attribute store\<close>







section \<open>Span creation\<close>

lemma kindMap_simps:
  "kindMap ''internal'' = Some SpanKindInternal"
  "kindMap ''server'' = Some SpanKindServer"
  "kindMap ''client'' = Some SpanKindClient"
  "kindMap ''producer'' = Some SpanKindProducer"
  "kindMap ''consumer'' = Some SpanKindConsumer"
  by (simp_all add: kindMap_def)

lemma kindMap_other:
  "k \<notin> {''internal'', ''server'', ''client'', ''producer'', ''consumer''} \<Longrightarrow> kindMap k = None"
  by (simp add: kindMap_def)

lemma span_kind_New:
  "span_kind (Span (New ctx spanName tracerArgs)) =
     (case tracerArgs of [] \<Rightarrow> SpanKindInternal
      | arg0 # _ \<Rightarrow> (case kindMap (Kind arg0) of Some spanKind \<Rightarrow> spanKind
                     | None \<Rightarrow> SpanKindInternal))"
  by (simp add: New_def tracer_Start_def Let_def split: list.splits option.splits)

section \<open>The shared gate of the hook setters\<close>

lemma once_done_stays: "once_done st \<Longrightarrow> hook_step c st = st"
  by (cases c) (simp_all add: SetErrorFunc_def SetPanicFunc_def once_Do_def)

lemma run_calls_done: "once_done st \<Longrightarrow> run_calls cs st = st"
  by (induction cs) (simp_all add: run_calls_def once_done_stays)

lemma once_done_after_step: "once_done (hook_step c st)"
  by (cases c) (simp_all add: SetErrorFunc_def SetPanicFunc_def once_Do_def)

section \<open>The claims\<close>

lemmas eval_attrs =
  Parse_def range_map_def map_entries_def map_store_def make_map_def stored_order_def
  StrKV_def BoolKV_def IntKV_def FloatKV_def SliceKV_def ErrorKV_def NewAttrs_def
  update.rep_eq empty.rep_eq Let_def entries_for_def
  attribute_String_def attribute_Bool_def attribute_Int_def attribute_Float64_def
  attribute_StringSlice_def

lemmas eval_span = New_def tracer_Start_def NewAttrs_def issue_def Let_def

text \<open>
  C1. When \<^verbatim>\<open>End\<close> runs as the deferred function while a panic with payload \<open>r\<close>
  unwinds, it wraps the payload into the error "recovered from panic: " followed by the
  payload's rendering, records that error on the span with the stack-trace option set,
  sets the status to Error with the error's message, ends the span with exactly one
  \<^verbatim>\<open>End\<close> call, and leaves the goroutine no longer panicking. Nothing else of the
  handle changes.
\<close>

theorem End_during_panic:
  "End fmt_v ro s (Some r) =
     (s\<lparr>Span := (Span s)\<lparr>calls := calls (Span s) @
          [RecordError (ErrorValue (''recovered from panic: '' @ fmt_v r)) True,
           SetStatus codes_Error (''recovered from panic: '' @ fmt_v r),
           SpanEnd]\<rparr>\<rparr>,
      None)
   \<and> length (filter (\<lambda>c. c = SpanEnd) (calls (Span (fst (End fmt_v ro s (Some r)))))) =
       Suc (length (filter (\<lambda>c. c = SpanEnd) (calls (Span s))))
   \<and> snd (End fmt_v ro s (Some r)) = None"
  by (simp add: End_def recover_def Errorf_recovered_def Error_def issue_def Let_def)

text \<open>
  C2. From the initial registry, a sequence of setter calls leaves the registry as its
  first call alone does; once any setter has run, every further call of either setter
  changes nothing. The first call assigns its own hook and leaves the other one nil. In
  particular \<^verbatim>\<open>SetErrorFunc\<close> followed by \<^verbatim>\<open>SetPanicFunc\<close> keeps the error hook
  and discards the panic hook.
\<close>

theorem first_hook_call_wins:
  "run_calls (c # cs) initial_registry = hook_step c initial_registry
   \<and> hook_step c' (hook_step c st) = hook_step c st
   \<and> cfg (SetErrorFunc fn initial_registry) = \<lparr>errorFunc = fn, panicFunc = None\<rparr>
   \<and> cfg (SetPanicFunc pfn initial_registry) = \<lparr>errorFunc = None, panicFunc = pfn\<rparr>
   \<and> SetPanicFunc pfn (SetErrorFunc fn initial_registry) = SetErrorFunc fn initial_registry
   \<and> cfg (SetPanicFunc pfn (SetErrorFunc fn initial_registry)) =
       \<lparr>errorFunc = fn, panicFunc = None\<rparr>"
proof -
  have "run_calls (c # cs) initial_registry = run_calls cs (hook_step c initial_registry)"
    by (simp add: run_calls_def)
  also have "\<dots> = hook_step c initial_registry"
    by (rule run_calls_done) (rule once_done_after_step)
  finally have seq: "run_calls (c # cs) initial_registry = hook_step c initial_registry" .
  have again: "hook_step c' (hook_step c st) = hook_step c st"
    by (rule once_done_stays) (rule once_done_after_step)
  show ?thesis
    using seq again
    by (simp add: SetErrorFunc_def SetPanicFunc_def once_Do_def initial_registry_def)
qed

text \<open>
  C3, as amended. \<^verbatim>\<open>Error\<close> changes nothing when the error is nil. For a non-nil
  error it sets the status to Error with the error's message; before that it records
  the error on the span exactly when the first optional flag is true (no flag counts as
  false), and that \<^verbatim>\<open>RecordError\<close> call passes no stack-trace option.
\<close>

theorem Error_records_without_stack_trace:
  "Error None recordError s = s
   \<and> Error (Some e) [] s =
       s\<lparr>Span := (Span s)\<lparr>calls := calls (Span s) @ [SetStatus codes_Error (err_Error e)]\<rparr>\<rparr>
   \<and> Error (Some e) (False # bs) s =
       s\<lparr>Span := (Span s)\<lparr>calls := calls (Span s) @ [SetStatus codes_Error (err_Error e)]\<rparr>\<rparr>
   \<and> Error (Some e) (True # bs) s =
       s\<lparr>Span := (Span s)\<lparr>calls := calls (Span s) @
          [RecordError e False, SetStatus codes_Error (err_Error e)]\<rparr>\<rparr>"
  by (simp add: Error_def issue_def Let_def)

text \<open>
  C3 as stated fails: on a fresh span, \<^verbatim>\<open>Error(err, true)\<close> with the error "boom"
  records the error without the stack-trace option; no \<^verbatim>\<open>RecordError\<close> call with a
  stack trace is made.
\<close>

theorem Error_stack_trace_counterexample:
  "calls (Span (Error (Some (ErrorValue ''boom'')) [True] (New Background ''op'' []))) =
     [RecordError (ErrorValue ''boom'') False, SetStatus codes_Error ''boom'']
   \<and> RecordError (ErrorValue ''boom'') True \<notin>
       set (calls (Span (Error (Some (ErrorValue ''boom'')) [True] (New Background ''op'' []))))"
  by (simp add: Error_def eval_span)

text \<open>
  C4. \<^verbatim>\<open>ErrorKV(k, err)\<close> stores the string "<nil>" under \<open>k\<close> in the string-kind
  mapping when the error is nil and the error's message when it is not; the other keys
  of that mapping and the other four mappings stay as they were.
\<close>

theorem ErrorKV_nil_or_message:
  "map_index (Str (ErrorKV k None a)) k = Some ''<nil>''
   \<and> map_index (Str (ErrorKV k (Some e) a)) k = Some (err_Error e)
   \<and> map_index (Str (ErrorKV k None a)) = (map_index (Str a))(k \<mapsto> ''<nil>'')
   \<and> map_index (Str (ErrorKV k (Some e) a)) = (map_index (Str a))(k \<mapsto> err_Error e)
   \<and> Bool (ErrorKV k v a) = Bool a \<and> Int' (ErrorKV k v a) = Int' a
   \<and> Float (ErrorKV k v a) = Float a \<and> Slice (ErrorKV k v a) = Slice a"
  by (simp add: Str_ErrorKV ErrorKV_others)

text \<open>
  C5. \<^verbatim>\<open>New\<close> starts the span with the kind that the first option's kind string
  names among "internal", "server", "client", "producer" and "consumer"; with any other
  kind string, and with no options at all, the span has kind internal.
\<close>

theorem New_span_kind:
  "span_kind (Span (New ctx spanName [])) = SpanKindInternal
   \<and> span_kind (Span (New ctx spanName (\<lparr>Kind = ''internal'', TracerName = tn\<rparr> # rest))) =
       SpanKindInternal
   \<and> span_kind (Span (New ctx spanName (\<lparr>Kind = ''server'', TracerName = tn\<rparr> # rest))) =
       SpanKindServer
   \<and> span_kind (Span (New ctx spanName (\<lparr>Kind = ''client'', TracerName = tn\<rparr> # rest))) =
       SpanKindClient
   \<and> span_kind (Span (New ctx spanName (\<lparr>Kind = ''producer'', TracerName = tn\<rparr> # rest))) =
       SpanKindProducer
   \<and> span_kind (Span (New ctx spanName (\<lparr>Kind = ''consumer'', TracerName = tn\<rparr> # rest))) =
       SpanKindConsumer
   \<and> (kd \<notin> {''internal'', ''server'', ''client'', ''producer'', ''consumer''} \<longrightarrow>
        span_kind (Span (New ctx spanName (\<lparr>Kind = kd, TracerName = tn\<rparr> # rest))) =
          SpanKindInternal)"
  by (simp add: span_kind_New kindMap_simps kindMap_other del: insert_iff)

text \<open>The kind string "bogus" is none of the five, and the span is internal.\<close>

theorem New_span_kind_witness:
  "''bogus'' \<notin> {''internal'', ''server'', ''client'', ''producer'', ''consumer''}
   \<and> span_kind (Span (New Background ''op'' [\<lparr>Kind = ''bogus'', TracerName = ''svc''\<rparr>])) =
       SpanKindInternal"
proof -
  have other: "''bogus'' \<notin> {''internal'', ''server'', ''client'', ''producer'', ''consumer''}"
    by simp
  show ?thesis
    using other
      New_span_kind [of Background "''op''" "''svc''" "[]" "''bogus''",
        THEN conjunct2, THEN conjunct2, THEN conjunct2, THEN conjunct2, THEN conjunct2,
        THEN conjunct2, THEN mp, OF other]
    by simp
qed

text \<open>
  C6, as amended. When a key is set through two typed setters that write values of
  different kinds, \<^verbatim>\<open>Parse\<close> returns exactly one entry for the key in each of the two
  kinds, holding the value each setter wrote; the two entries differ. \<^verbatim>\<open>ErrorKV\<close>
  writes a string-kind value, as \<^verbatim>\<open>StrKV\<close> does.
\<close>

theorem two_kinds_two_entries:
  assumes "value_type (value_set c1) \<noteq> value_type (value_set c2)"
  shows "entries_for k (value_type (value_set c1))
           (Parse ro (call_setter k c2 (call_setter k c1 a))) = [(k, value_set c1)]
       \<and> entries_for k (value_type (value_set c2))
           (Parse ro (call_setter k c2 (call_setter k c1 a))) = [(k, value_set c2)]
       \<and> (k, value_set c1) \<noteq> (k, value_set c2)"
  using assms by (auto simp: entries_other_kind entries_after_call)

text \<open>\<^verbatim>\<open>StrKV\<close> then \<^verbatim>\<open>IntKV\<close> on the key "k" of a fresh accumulator.\<close>

theorem two_kinds_two_entries_witness:
  "value_type (value_set (CallStrKV ''/x'')) \<noteq> value_type (value_set (CallIntKV 200))
   \<and> entries_for ''k'' T_STRING (Parse stored_order (IntKV ''k'' 200 (StrKV ''k'' ''/x'' NewAttrs)))
       = [(''k'', STRING ''/x'')]
   \<and> entries_for ''k'' T_INT64 (Parse stored_order (IntKV ''k'' 200 (StrKV ''k'' ''/x'' NewAttrs)))
       = [(''k'', INT64 200)]"
proof -
  have kinds: "value_type (value_set (CallStrKV ''/x'')) \<noteq> value_type (value_set (CallIntKV 200))"
    by simp
  show ?thesis
    using kinds
      two_kinds_two_entries [OF kinds, of "''k''" stored_order NewAttrs]
    by simp
qed

text \<open>
  C6 as stated fails: \<^verbatim>\<open>StrKV\<close> and \<^verbatim>\<open>ErrorKV\<close> are two different typed setters,
  and after \<^verbatim>\<open>StrKV("k", "v")\<close> and \<^verbatim>\<open>ErrorKV("k", nil)\<close> on a fresh accumulator
  \<^verbatim>\<open>Parse\<close> returns a single entry for "k".
\<close>

theorem two_setters_one_entry_counterexample:
  "setter_of (CallStrKV ''v'') \<noteq> setter_of (CallErrorKV None)
   \<and> Parse stored_order
       (call_setter ''k'' (CallErrorKV None) (call_setter ''k'' (CallStrKV ''v'') NewAttrs)) =
       [(''k'', STRING ''<nil>'')]
   \<and> length (filter (\<lambda>(k', v). k' = ''k'')
       (Parse stored_order
         (call_setter ''k'' (CallErrorKV None) (call_setter ''k'' (CallStrKV ''v'') NewAttrs))))
       \<noteq> 2"
  by (simp add: eval_attrs)

text \<open>
  C7. After a non-empty sequence of calls of one typed setter with the key \<open>k\<close>,
  \<^verbatim>\<open>Parse\<close> returns exactly one entry for \<open>k\<close> in that setter's kind, and it holds the
  value of the last call.
\<close>

theorem same_setter_last_wins:
  assumes "cs \<noteq> []" and "\<forall>c \<in> set cs. setter_of c = setter_of (last cs)"
  shows "entries_for k (value_type (value_set (last cs)))
           (Parse ro (fold (call_setter k) cs a)) = [(k, value_set (last cs))]"
proof -
  from assms(1) obtain cs' c where cs: "cs = cs' @ [c]"
    by (metis rev_exhaust)
  show ?thesis
    by (simp add: cs entries_after_call)
qed

text \<open>\<^verbatim>\<open>StrKV("k", "a")\<close> then \<^verbatim>\<open>StrKV("k", "b")\<close> on a fresh accumulator.\<close>

theorem same_setter_last_wins_witness:
  "[CallStrKV ''a'', CallStrKV ''b''] \<noteq> []
   \<and> list_all (\<lambda>c. setter_of c = setter_of (last [CallStrKV ''a'', CallStrKV ''b'']))
         [CallStrKV ''a'', CallStrKV ''b'']
   \<and> entries_for ''k'' T_STRING (Parse stored_order (StrKV ''k'' ''b'' (StrKV ''k'' ''a'' NewAttrs)))
       = [(''k'', STRING ''b'')]"
proof -
  have ne: "[CallStrKV ''a'', CallStrKV ''b''] \<noteq> []"
    by simp
  have same: "\<forall>c \<in> set [CallStrKV ''a'', CallStrKV ''b''].
      setter_of c = setter_of (last [CallStrKV ''a'', CallStrKV ''b''])"
    by simp
  show ?thesis
    using ne same same_setter_last_wins [OF ne same, of "''k''" stored_order NewAttrs]
    by simp
qed


text \<open>
  C9. \<^verbatim>\<open>SError\<close> with the empty message returns the handle unchanged; with a
  non-empty message \<open>m\<close> it sets the status to Error with description \<open>m\<close> and changes
  nothing else.
\<close>

theorem SError_empty_or_not:
  "SError [] s = s
   \<and> (m \<noteq> [] \<longrightarrow>
        SError m s = s\<lparr>Span := (Span s)\<lparr>calls := calls (Span s) @ [SetStatus codes_Error m]\<rparr>\<rparr>)"
  by (simp add: SError_def issue_def)

text \<open>The message "boom" on a fresh span.\<close>

theorem SError_empty_or_not_witness:
  "''boom'' \<noteq> []
   \<and> calls (Span (SError ''boom'' (New Background ''op'' []))) = [SetStatus codes_Error ''boom'']"
proof -
  have ne: "''boom'' \<noteq> []"
    by simp
  show ?thesis
    using ne
      SError_empty_or_not [of "New Background ''op'' []" "''boom''", THEN conjunct2, THEN mp,
        OF ne]
    by (simp add: eval_span)
qed


end
